theory Spec2Isabelle
  imports Main "HOL-Library.AList"
begin

text \<open>
  A shallow embedding of quickrest, a builder of REST clients: the module that exports
  \<^verbatim>\<open>(config) => build(opts)(normalize(all))\<close>, in its revision with \<^verbatim>\<open>verbFactory\<close>,
  \<^verbatim>\<open>patch\<close>, \<^verbatim>\<open>place\<close> and \<^verbatim>\<open>normalize\<close>. Each definition carries the name of the
  function it embeds. The earlier revision \<^verbatim>\<open>src/index.js\<close>, whose \<^verbatim>\<open>loop\<close> walks the
  sorted list of paths and has no merged tree, is not embedded.
\<close>

section \<open>Strings\<close>

text \<open>
  JavaScript strings are modelled as \<open>string\<close>, one \<open>char\<close> per code unit; only the
  code units 0 to 255 are representable, so of the white space that
  \<^verbatim>\<open>String.prototype.trim\<close> removes, the model knows TAB, LF, VT, FF, CR, SPACE and
  NBSP.
\<close>

definition is_white_space :: "char \<Rightarrow> bool" where
  "is_white_space c \<longleftrightarrow>
     c \<in> {CHR 0x09, CHR 0x0A, CHR 0x0B, CHR 0x0C, CHR 0x0D, CHR '' '', CHR 0xA0}"

definition trim :: "string \<Rightarrow> string" where
  "trim s = rev (dropWhile is_white_space (rev (dropWhile is_white_space s)))"

definition endsWith_slash :: "string \<Rightarrow> bool" where
  "endsWith_slash s \<longleftrightarrow> s \<noteq> [] \<and> last s = CHR ''/''"

text \<open>
  \<^verbatim>\<open>cleanroot(root)\<close>: the test \<^verbatim>\<open>root.endsWith('/')\<close> is made on the untrimmed
  string; \<^verbatim>\<open>matches('/')\<close> applied to a one-character string is the test
  \<^verbatim>\<open>char === '/'\<close>.
\<close>

definition cleanroot :: "string \<Rightarrow> string" where
  "cleanroot root =
     (if \<not> endsWith_slash root then trim root
      else rev (dropWhile (\<lambda>c. c = CHR ''/'') (rev (trim root))))"

text \<open>\<^verbatim>\<open>s.split('/')\<close>: never empty, \<^verbatim>\<open>''.split('/')\<close> is \<^verbatim>\<open>['']\<close>.\<close>

fun split_slash :: "string \<Rightarrow> string list" where
  "split_slash [] = [] # []"
| "split_slash (c # cs) =
     (if c = CHR ''/'' then [] # split_slash cs
      else (case split_slash cs of
              [] \<Rightarrow> [c] # []
            | w # ws \<Rightarrow> (c # w) # ws))"

text \<open>\<^verbatim>\<open>compact\<close> on an array of strings drops the falsy ones, that is the empty strings.\<close>

definition compact :: "string list \<Rightarrow> string list" where
  "compact xs = filter (\<lambda>s. s \<noteq> []) xs"

section \<open>Endpoint declarations and the Path Normalizer\<close>

record endpoint_config =
  resource :: string
  versions :: "string list"
  createMethod :: "string option"

datatype endpoint = Simple string | Configured endpoint_config

text \<open>
  \<^verbatim>\<open>buildResources(endpoints, commonVersions)\<close> maps over the endpoints and, on the way,
  pushes to \<^verbatim>\<open>simpleResources\<close> and writes the identity map \<^verbatim>\<open>versions\<close>
  (\<^verbatim>\<open>iden[k] = v\<close> with \<^verbatim>\<open>k\<close> the index inside one declaration's version list).
  The accumulator is (simpleResources, eps, versions). A configured endpoint's path is
  split but not compacted, and its configuration record rides on the array as the
  property \<^verbatim>\<open>config\<close>, which no later stage reads: the model keeps the segments only.
\<close>

type_synonym path = "string list"

fun index_from :: "nat \<Rightarrow> 'a list \<Rightarrow> (nat \<times> 'a) list" where
  "index_from k [] = []"
| "index_from k (x # xs) = (k, x) # index_from (Suc k) xs"

definition buildResources_step ::
  "string list \<Rightarrow> path list \<times> path list \<times> (nat \<times> string) list \<Rightarrow> endpoint
     \<Rightarrow> path list \<times> path list \<times> (nat \<times> string) list" where
  "buildResources_step commonVersions acc e =
     (case acc of (simpleResources, eps, vers) \<Rightarrow>
        (case e of
           Simple s \<Rightarrow>
             (let clean = compact (split_slash s)
              in (simpleResources @ clean # map (\<lambda>cv. cv # clean) commonVersions,
                  eps @ [clean], vers))
         | Configured c \<Rightarrow>
             (simpleResources, eps @ [split_slash (resource c)],
              foldl (\<lambda>iden (k, v). AList.update k v iden) vers (index_from 0 (versions c)))))"

definition buildResources ::
  "endpoint list \<Rightarrow> string list \<Rightarrow> path list \<times> path list \<times> (nat \<times> string) list" where
  "buildResources endpoints commonVersions =
     foldl (buildResources_step commonVersions) ([], [], []) endpoints"

section \<open>Own properties\<close>

text \<open>
  An object is modelled by the list of its own string-keyed properties, in the order in
  which \<^verbatim>\<open>Object.keys\<close> enumerates them: the keys that are array indices (the
  canonical decimal numerals below 4294967295) first, in ascending numeric order, then
  the other keys in the order of their creation. Writing a key that the object already
  has keeps its position.
\<close>

definition digit :: "char \<Rightarrow> bool" where
  "digit c \<longleftrightarrow> c \<in> set ''0123456789''"

fun number_of :: "nat \<Rightarrow> string \<Rightarrow> nat" where
  "number_of acc [] = acc"
| "number_of acc (c # cs) = number_of (10 * acc + ((of_char c :: nat) - 48)) cs"

definition array_index :: "string \<Rightarrow> nat option" where
  "array_index s =
     (if s \<noteq> [] \<and> list_all digit s \<and> (hd s \<noteq> CHR ''0'' \<or> s = ''0'')
          \<and> number_of 0 s < 4294967295
      then Some (number_of 0 s) else None)"

definition goes_before :: "string \<Rightarrow> string \<Rightarrow> bool" where
  "goes_before k k' =
     (case array_index k of
        None \<Rightarrow> False
      | Some i \<Rightarrow> (case array_index k' of None \<Rightarrow> True | Some j \<Rightarrow> i < j))"

fun insert_key :: "string \<Rightarrow> 'a \<Rightarrow> (string \<times> 'a) list \<Rightarrow> (string \<times> 'a) list" where
  "insert_key k v [] = [(k, v)]"
| "insert_key k v (p # m) =
     (if goes_before k (fst p) then (k, v) # p # m else p # insert_key k v m)"

definition write_key :: "string \<Rightarrow> 'a \<Rightarrow> (string \<times> 'a) list \<Rightarrow> (string \<times> 'a) list" where
  "write_key k v m = (if map_of m k = None then insert_key k v m else AList.update k v m)"

text \<open>
  Reading \<^verbatim>\<open>x[k]\<close> goes through the prototype chain. The library never creates a
  prototype, so besides its own properties a plain object has the properties of
  \<^verbatim>\<open>Object.prototype\<close>, and a function has in addition its own \<^verbatim>\<open>length\<close>,
  \<^verbatim>\<open>name\<close> and \<^verbatim>\<open>prototype\<close> and the properties of \<^verbatim>\<open>Function.prototype\<close>. What
  a plain object inherits is a truthy function or object of the engine. None of these
  values is held in the model, which knows their names only. Of a function's
  properties, \<^verbatim>\<open>length\<close> and \<^verbatim>\<open>name\<close> are not writable, and \<^verbatim>\<open>arguments\<close> and
  \<^verbatim>\<open>caller\<close> are not writable or are accessors that throw: in the strict mode of a
  module an assignment to one of them throws a \<^verbatim>\<open>TypeError\<close>.
\<close>

definition object_natives :: "string list" where
  "object_natives =
     [''constructor'', ''__defineGetter__'', ''__defineSetter__'', ''hasOwnProperty'',
      ''__lookupGetter__'', ''__lookupSetter__'', ''isPrototypeOf'', ''propertyIsEnumerable'',
      ''toString'', ''valueOf'', ''__proto__'', ''toLocaleString'']"

definition function_read_only :: "string list" where
  "function_read_only = [''length'', ''name'', ''arguments'', ''caller'']"

definition function_natives :: "string list" where
  "function_natives =
     function_read_only @ [''prototype'', ''apply'', ''bind'', ''call''] @ object_natives"

text \<open>
  Where the program stops being described by the model: \<open>ReadOnly k\<close> is the
  \<^verbatim>\<open>TypeError\<close> that the assignment to the read-only property \<open>k\<close> of a function
  throws; \<open>BuiltIn k\<close> says that the program goes on with an object of the engine that
  it reached under the name \<open>k\<close> (it reads or writes the properties of a built-in
  function or prototype, or replaces an object's prototype through \<^verbatim>\<open>__proto__\<close>),
  which the model does not follow.
\<close>

datatype fault = ReadOnly string | BuiltIn string

section \<open>The Tree Merger\<close>

text \<open>
  The resource tree is an object whose values are \<^verbatim>\<open>1\<close> (a leaf) or a nested object,
  each created by \<^verbatim>\<open>{}\<close>.
\<close>

datatype tree = Leaf | Node "(string \<times> tree) list"

text \<open>
  \<^verbatim>\<open>place(map, paths)\<close>. Destructuring an empty \<^verbatim>\<open>paths\<close> gives
  \<^verbatim>\<open>head = undefined\<close>, and \<^verbatim>\<open>map[undefined]\<close> is the property \<^verbatim>\<open>"undefined"\<close>.
  \<^verbatim>\<open>map[head]\<close> is the own property if there is one; otherwise, for a name of
  \<^verbatim>\<open>Object.prototype\<close>, it is the inherited value, which is truthy and is not \<^verbatim>\<open>1\<close>:
  at the end of a path nothing is stored, and in the middle of a path the function
  descends into the inherited object (\<open>BuiltIn\<close>). The function mutates \<^verbatim>\<open>map\<close>; the
  model returns the mutated top-level object.
\<close>

fun place :: "(string \<times> tree) list \<Rightarrow> path \<Rightarrow> fault + (string \<times> tree) list" where
  "place m [] =
     (case map_of m ''undefined'' of
        None \<Rightarrow> Inr (write_key ''undefined'' Leaf m)
      | Some node \<Rightarrow> Inr m)"
| "place m [head] =
     (case map_of m head of
        None \<Rightarrow> if head \<in> set object_natives then Inr m else Inr (write_key head Leaf m)
      | Some node \<Rightarrow> Inr m)"
| "place m (head # rest) =
     (case map_of m head of
        None \<Rightarrow>
          if head \<in> set object_natives then Inl (BuiltIn head)
          else (case place [] rest of
                  Inl e \<Rightarrow> Inl e
                | Inr node \<Rightarrow> Inr (write_key head (Node node) m))
      | Some Leaf \<Rightarrow>
          (case place [] rest of
             Inl e \<Rightarrow> Inl e
           | Inr node \<Rightarrow> Inr (write_key head (Node node) m))
      | Some (Node kids) \<Rightarrow>
          (case place kids rest of
             Inl e \<Rightarrow> Inl e
           | Inr node \<Rightarrow> Inr (write_key head (Node node) m)))"

text \<open>\<^verbatim>\<open>normalize(ls)\<close>: \<^verbatim>\<open>ls.forEach(xs => place(out, xs))\<close> on \<^verbatim>\<open>out = {}\<close>.\<close>

fun place_each :: "(string \<times> tree) list \<Rightarrow> path list \<Rightarrow> fault + (string \<times> tree) list" where
  "place_each out [] = Inr out"
| "place_each out (xs # ls) =
     (case place out xs of
        Inl e \<Rightarrow> Inl e
      | Inr out' \<Rightarrow> place_each out' ls)"

definition normalize :: "path list \<Rightarrow> fault + (string \<times> tree) list" where
  "normalize ls = place_each [] ls"

section \<open>The Verb Binder\<close>

text \<open>
  Header, property and query objects are maps from names to values; \<^verbatim>\<open>Object.assign({}, a, b)\<close>
  is \<open>a ++ b\<close>. Values are kept as strings.
\<close>

type_synonym dict = "string \<rightharpoonup> string"

text \<open>The object a hook may hand back: any of \<^verbatim>\<open>{headers, properties, query}\<close>.\<close>

record modification =
  m_headers :: "dict option"
  m_properties :: "dict option"
  m_query :: "dict option"

definition no_mod :: modification where
  "no_mod = \<lparr>m_headers = None, m_properties = None, m_query = None\<rparr>"

text \<open>
  The caller's callback: the one the caller passed, or \<^verbatim>\<open>noop\<close>, the default of every
  verb's \<^verbatim>\<open>cb\<close> parameter.
\<close>

datatype callback = Noop | UserCb

text \<open>
  The values that \<^verbatim>\<open>proto\<close> reads members from or passes as the HTTP method.
  Only \<^verbatim>\<open>props\<close> and \<^verbatim>\<open>createMethod\<close> are ever read; a string has neither.
\<close>

datatype jsval = JUndefined | JString string | JObject "(string \<times> jsval) list"

fun member :: "jsval \<Rightarrow> string \<Rightarrow> jsval" where
  "member (JObject ps) k = (case map_of ps k of None \<Rightarrow> JUndefined | Some v \<Rightarrow> v)"
| "member (JString s) k = JUndefined"
| "member JUndefined k = JUndefined"

fun truthy :: "jsval \<Rightarrow> bool" where
  "truthy JUndefined = False"
| "truthy (JString s) = (s \<noteq> [])"
| "truthy (JObject ps) = True"

text \<open>One call of the transport: \<^verbatim>\<open>request(route, method, props, qry, head, finish)\<close>.\<close>

record 'r transport_call =
  t_url :: 'r
  t_method :: jsval
  t_props :: dict
  t_query :: dict
  t_headers :: dict
  t_finish :: "callback option"

text \<open>
  What a verb invocation does that its caller or the transport can observe: a call of the
  transport, a call \<^verbatim>\<open>cb(err)\<close> of the caller's callback, or the TypeError of calling a
  \<^verbatim>\<open>cb\<close> that is \<^verbatim>\<open>undefined\<close>.
\<close>

datatype 'r effect =
    Request "'r transport_call"
  | Invoke callback string
  | Throws

text \<open>
  What a verb returns: nothing, what the transport returned for a call, the promise
  \<^verbatim>\<open>new opts.promise(resolve => ...)\<close> whose \<^verbatim>\<open>resolve\<close> is never called, the promise
  \<^verbatim>\<open>opts.promise.resolve(out).then(processed)\<close> that settles as the transport's result of
  the call made by \<^verbatim>\<open>processed\<close>, or that promise rejected because \<^verbatim>\<open>out\<close> rejected.
\<close>

datatype 'r returned =
    ReturnsUndefined
  | ReturnsTransport "'r transport_call"
  | ReturnsPending
  | ReturnsThen "'r transport_call"
  | ReturnsRejected string

text \<open>
  A \<^verbatim>\<open>beforeEach\<close> hook is a caller-supplied function of (properties, query, headers, spy).
  Its behaviour is what it returns synchronously and the completions it makes, now or
  later, by calling \<^verbatim>\<open>spy(err, mod)\<close>; \<open>None\<close> is a falsy \<^verbatim>\<open>err\<close>, respectively an
  \<^verbatim>\<open>undefined\<close> \<^verbatim>\<open>mod\<close>. A hook that throws, or that hands back something that is not a
  modification object, is outside the model.
\<close>

datatype hook_out = HUndefined | HValue modification | HRejects string

record hook_behaviour =
  hook_returns :: hook_out
  hook_completions :: "(string option \<times> modification option) list"

type_synonym hook = "dict \<Rightarrow> dict \<Rightarrow> dict \<Rightarrow> hook_behaviour"

text \<open>\<^verbatim>\<open>processed(mod = {}, finish)\<close> inside \<^verbatim>\<open>verbFactory\<close>.\<close>

definition or_empty :: "dict option \<Rightarrow> dict" where
  "or_empty d = (case d of None \<Rightarrow> Map.empty | Some m \<Rightarrow> m)"

definition processed ::
  "'r \<Rightarrow> jsval \<Rightarrow> dict \<Rightarrow> dict \<Rightarrow> dict \<Rightarrow> modification option \<Rightarrow> callback option
     \<Rightarrow> 'r transport_call" where
  "processed route method properties query headers modi finish =
     (let m = (case modi of None \<Rightarrow> no_mod | Some x \<Rightarrow> x);
          head = headers ++ or_empty (m_headers m);
          props = properties ++ or_empty (m_properties m);
          qry = query ++ or_empty (m_query m)
      in \<lparr>t_url = route, t_method = method, t_props = props, t_query = qry,
          t_headers = head, t_finish = finish\<rparr>)"

text \<open>
  \<^verbatim>\<open>spy(err, mod)\<close>: \<^verbatim>\<open>if (err) return cb(err)\<close>, else \<^verbatim>\<open>processed(mod, cb)\<close>.
  Every verb of \<^verbatim>\<open>proto\<close> defaults \<^verbatim>\<open>cb\<close> to \<^verbatim>\<open>noop\<close>, so from a verb \<^verbatim>\<open>cb\<close> is
  always a function.
\<close>

definition spy ::
  "'r \<Rightarrow> jsval \<Rightarrow> dict \<Rightarrow> dict \<Rightarrow> dict \<Rightarrow> callback option
     \<Rightarrow> string option \<times> modification option \<Rightarrow> 'r effect" where
  "spy route method properties query headers cb completion =
     (case completion of
        (Some err, modi) \<Rightarrow> (case cb of None \<Rightarrow> Throws | Some c \<Rightarrow> Invoke c err)
      | (None, modi) \<Rightarrow> Request (processed route method properties query headers modi cb))"

text \<open>
  \<^verbatim>\<open>verbFactory(opts, request)(route, method, properties, query, headers, cb)\<close>.
  The result is the returned value, the effects of the synchronous path and of the
  promise chain, and one effect per completion of the hook, in the hook's order.
\<close>

record 'r verb_result =
  returns :: "'r returned"
  direct_effects :: "'r effect list"
  completion_effects :: "'r effect list"

definition verbFactory ::
  "hook option \<Rightarrow> 'r \<Rightarrow> jsval \<Rightarrow> dict \<Rightarrow> dict \<Rightarrow> dict \<Rightarrow> callback option
     \<Rightarrow> 'r verb_result" where
  "verbFactory beforeEach route method properties query headers cb =
     (case beforeEach of
        None \<Rightarrow>
          (case cb of
             None \<Rightarrow>
               \<lparr>returns = ReturnsPending,
                direct_effects =
                  [Request (processed route method properties query headers (Some no_mod) None)],
                completion_effects = []\<rparr>
           | Some c \<Rightarrow>
               (let call = processed route method properties query headers (Some no_mod) (Some c)
                in \<lparr>returns = ReturnsTransport call, direct_effects = [Request call],
                    completion_effects = []\<rparr>))
      | Some hook \<Rightarrow>
          (let b = hook properties query headers;
               completed = map (spy route method properties query headers cb)
                             (hook_completions b)
           in (case hook_returns b of
                 HUndefined \<Rightarrow>
                   \<lparr>returns = ReturnsUndefined, direct_effects = [], completion_effects = completed\<rparr>
               | HValue out \<Rightarrow>
                   (let call = processed route method properties query headers (Some out) None
                    in \<lparr>returns = ReturnsThen call, direct_effects = [Request call],
                        completion_effects = completed\<rparr>)
               | HRejects err \<Rightarrow>
                   \<lparr>returns = ReturnsRejected err, direct_effects = [],
                    completion_effects = completed\<rparr>)))"

section \<open>The Hierarchy Compiler\<close>

text \<open>
  The compiled hierarchy is a graph of mutable JavaScript objects, so it lives in an
  explicit store: a list of objects, an address being an index. A function object is an
  object with a closure; the closures record what the function closes over. Route
  accessors and verb methods are never given properties, so they are values. The store
  holds the properties that the library sets, not those that JavaScript gives every
  function or object.
\<close>

type_synonym addr = nat

text \<open>
  The functions of the library: \<open>Plain\<close> is the default accumulator \<^verbatim>\<open>function() {}\<close>;
  \<open>ResourceFn name v accum\<close> is \<^verbatim>\<open>fn\<close> of \<^verbatim>\<open>loop\<close>; \<open>NodeRoute name accum\<close> is
  \<^verbatim>\<open>fn._route\<close>; \<open>InstRoute name id accum self\<close> is the \<^verbatim>\<open>_route\<close> of the object that
  \<^verbatim>\<open>fn(id)\<close> returns; \<open>VerbFn verb resource\<close> is a verb of \<^verbatim>\<open>proto(resource, opts)\<close>;
  \<open>GetUrlFn\<close> is its \<^verbatim>\<open>getUrl\<close>.
\<close>

datatype verb = VCreate | VPatch | VDel | VDelete | VGet | VList | VUpdate

datatype closure =
    Plain
  | ResourceFn string tree addr
  | NodeRoute string addr
  | InstRoute string string addr addr
  | VerbFn verb jsval
  | GetUrlFn

datatype val = Ref addr | Fun closure

record obj =
  callable :: "closure option"
  props :: "(string \<times> val) list"

type_synonym heap = "obj list"

text \<open>
  Own-property lookup, and the creation or overwriting of an own property. \<open>put\<close> is
  the assignment \<^verbatim>\<open>x[k] = v\<close> of strict code: on a function it throws for a
  read-only name, and under the name \<^verbatim>\<open>__proto__\<close> it replaces the prototype of
  \<^verbatim>\<open>x\<close> instead of creating a property.
\<close>

definition get_prop :: "heap \<Rightarrow> addr \<Rightarrow> string \<Rightarrow> val option" where
  "get_prop h x k = (if x < length h then map_of (props (h ! x)) k else None)"

definition set_prop :: "addr \<Rightarrow> string \<Rightarrow> val \<Rightarrow> heap \<Rightarrow> heap" where
  "set_prop x k v h = h[x := (h ! x)\<lparr>props := write_key k v (props (h ! x))\<rparr>]"

text \<open>The function behind a reference; a plain object has none.\<close>

definition closure_at :: "heap \<Rightarrow> addr \<Rightarrow> closure option" where
  "closure_at h x = (if x < length h then callable (h ! x) else None)"

definition put :: "addr \<Rightarrow> string \<Rightarrow> val \<Rightarrow> heap \<Rightarrow> fault + heap" where
  "put x k v h =
     (if k = ''__proto__'' then Inl (BuiltIn k)
      else if closure_at h x \<noteq> None \<and> k \<in> set function_read_only then Inl (ReadOnly k)
      else Inr (set_prop x k v h))"

text \<open>
  The names under which \<^verbatim>\<open>x[k]\<close> is a value of the engine when \<^verbatim>\<open>x\<close> has no own
  property \<open>k\<close> in the store.
\<close>

definition native :: "heap \<Rightarrow> addr \<Rightarrow> string \<Rightarrow> bool" where
  "native h x k \<longleftrightarrow>
     k \<in> set (if closure_at h x = None then object_natives else function_natives)"

text \<open>
  \<^verbatim>\<open>Object.assign(target, source)\<close> assigns the properties of \<^verbatim>\<open>source\<close> in the
  order of its keys, and stops at the first assignment that throws. \<open>assign\<close> is the
  property list that results when every assignment creates or overwrites a property;
  from the empty list it is also the object literal with these computed keys.
\<close>

definition assign :: "(string \<times> val) list \<Rightarrow> (string \<times> val) list \<Rightarrow> (string \<times> val) list" where
  "assign target source = foldl (\<lambda>t (k, v). write_key k v t) target source"

fun assign_to :: "addr \<Rightarrow> (string \<times> val) list \<Rightarrow> heap \<Rightarrow> fault + heap" where
  "assign_to x [] h = Inr h"
| "assign_to x ((k, v) # source) h =
     (case put x k v h of
        Inl e \<Rightarrow> Inl e
      | Inr h' \<Rightarrow> assign_to x source h')"


record alt_names =
  alt_patch :: "string option"
  alt_create :: "string option"
  alt_update :: "string option"
  alt_del :: "string option"
  alt_list :: "string option"
  alt_get :: "string option"

text \<open>The options \<^verbatim>\<open>opts\<close> that \<^verbatim>\<open>build\<close>, \<^verbatim>\<open>proto\<close> and \<^verbatim>\<open>verbFactory\<close> read.\<close>

record opts =
  o_root :: string
  o_headers :: dict
  o_altMethodNames :: alt_names
  o_beforeEach :: "hook option"

text \<open>\<^verbatim>\<open>alt || 'name'\<close>: an absent or empty alternative name is falsy.\<close>

definition alt_or :: "string option \<Rightarrow> string \<Rightarrow> string" where
  "alt_or a d = (case a of None \<Rightarrow> d | Some s \<Rightarrow> if s = [] then d else s)"

text \<open>
  \<^verbatim>\<open>proto(resource, opts)\<close>: an object literal with computed keys, in the source's order.
\<close>

definition proto :: "jsval \<Rightarrow> opts \<Rightarrow> (string \<times> val) list" where
  "proto res conf =
     (let a = o_altMethodNames conf
      in assign []
           [(alt_or (alt_create a) ''create'', Fun (VerbFn VCreate res)),
            (alt_or (alt_patch a) ''patch'', Fun (VerbFn VPatch res)),
            (alt_or (alt_del a) ''del'', Fun (VerbFn VDel res)),
            (alt_or (alt_del a) ''delete'', Fun (VerbFn VDelete res)),
            (alt_or (alt_get a) ''get'', Fun (VerbFn VGet res)),
            (alt_or (alt_list a) ''list'', Fun (VerbFn VList res)),
            (alt_or (alt_update a) ''update'', Fun (VerbFn VUpdate res)),
            (''getUrl'', Fun GetUrlFn)])"

text \<open>The children of a tree value: \<^verbatim>\<open>size(1)\<close> is 0, so a leaf has none.\<close>

fun kids :: "tree \<Rightarrow> (string \<times> tree) list" where
  "kids Leaf = []"
| "kids (Node ks) = ks"

text \<open>
  \<^verbatim>\<open>loop(resources, accum)\<close> inside \<^verbatim>\<open>build(conf)\<close>, on the entries of
  \<^verbatim>\<open>resources\<close> in the order of \<^verbatim>\<open>Object.keys\<close>. \<^verbatim>\<open>fn\<close> is allocated, given
  \<^verbatim>\<open>_route\<close> and the verbs, then its children, and is stored last in \<^verbatim>\<open>accum[name]\<close>;
  \<^verbatim>\<open>pick(resources, rest)\<close> is the rest of the object.
\<close>

function loop :: "opts \<Rightarrow> (string \<times> tree) list \<Rightarrow> addr \<Rightarrow> heap \<Rightarrow> fault + heap" where
  "loop conf [] accum h = Inr h"
| "loop conf ((name, v) # rest) accum h =
     (let fn = length h;
          h1 = h @ [\<lparr>callable = Some (ResourceFn name v accum), props = []\<rparr>]
      in case put fn ''_route'' (Fun (NodeRoute name accum)) h1 of
           Inl e \<Rightarrow> Inl e
         | Inr h2 \<Rightarrow>
             (case assign_to fn (proto (JString name) conf) h2 of
                Inl e \<Rightarrow> Inl e
              | Inr h3 \<Rightarrow>
                  (case (if v \<noteq> Leaf then loop conf (kids v) fn h3 else Inr h3) of
                     Inl e \<Rightarrow> Inl e
                   | Inr h4 \<Rightarrow>
                       (case put accum name (Ref fn) h4 of
                          Inl e \<Rightarrow> Inl e
                        | Inr h5 \<Rightarrow> loop conf rest accum h5))))"
  by pat_completeness auto
termination
proof (relation "measure (\<lambda>(conf, rs, accum, h). size_list (size_prod (\<lambda>k. 0) size) rs)")
  show "wf (measure (\<lambda>(conf, rs, accum, h). size_list (size_prod (\<lambda>k. 0) size) rs))"
    by simp
next
  fix conf :: opts and name :: string and v :: tree and rest accum and h :: heap
    and x xa xb xc
  assume "v \<noteq> Leaf"
  then show "((conf, kids v, x, xc), conf, (name, v) # rest, accum, h)
          \<in> measure (\<lambda>(conf, rs, accum, h). size_list (size_prod (\<lambda>k. 0) size) rs)"
    by (cases v) auto
next
  fix conf :: opts and name :: string and v :: tree and rest accum and h :: heap
    and x xa xb xc xd xe
  show "((conf, rest, accum, xe), conf, (name, v) # rest, accum, h)
          \<in> measure (\<lambda>(conf, rs, accum, h). size_list (size_prod (\<lambda>k. 0) size) rs)"
    by simp
qed

text \<open>
  Calling the resource function \<^verbatim>\<open>fn(id)\<close> with receiver \<^verbatim>\<open>this\<close>: the function that
  \<^verbatim>\<open>loop\<close> created for \<open>name\<close>, \<open>v\<close> and \<open>accum\<close>. It tests \<^verbatim>\<open>this._out\<close> and
  writes \<^verbatim>\<open>this.out\<close>. The identifier is the text that the template literal makes of
  \<^verbatim>\<open>id\<close>.
\<close>

definition invoke ::
  "opts \<Rightarrow> heap \<Rightarrow> addr \<Rightarrow> string \<Rightarrow> tree \<Rightarrow> addr \<Rightarrow> string \<Rightarrow> fault + (val \<times> heap)" where
  "invoke conf h this name v accum ident =
     (case get_prop h this ''_out'' of
        Some cached \<Rightarrow> Inr (cached, h)
      | None \<Rightarrow>
          (let out = length h;
               h1 = h @ [\<lparr>callable = None,
                          props = [(''_route'', Fun (InstRoute name ident accum this))]\<rparr>]
           in case assign_to out (proto (JString name) conf) h1 of
                Inl e \<Rightarrow> Inl e
              | Inr h2 \<Rightarrow>
                  (case put this ''out'' (Ref out) h2 of
                     Inl e \<Rightarrow> Inl e
                   | Inr h3 \<Rightarrow>
                       (case loop conf (kids v) out h3 of
                          Inl e \<Rightarrow> Inl e
                        | Inr h4 \<Rightarrow> Inr (Ref out, h4)))))"

datatype failure =
    StackOverflow
  | NotAFunction
  | NotARoute
  | NotAnObject
  | Stopped fault

text \<open>
  \<^verbatim>\<open>x._route()\<close> for the object at address \<open>x\<close>. The accessors call each other up the
  ancestor chain through the store, so the recursion is bounded by fuel, the depth of the
  call stack. When \<^verbatim>\<open>_route\<close> holds something that is not a route accessor (a resource
  function or a verb stored under that name), JavaScript would interpolate that
  function's result into the string; the model reports \<open>NotARoute\<close>.
\<close>

fun route_at :: "nat \<Rightarrow> opts \<Rightarrow> heap \<Rightarrow> addr \<Rightarrow> failure + string" where
  "route_at 0 conf h x = Inl StackOverflow"
| "route_at (Suc n) conf h x =
     (case get_prop h x ''_route'' of
        None \<Rightarrow> Inl NotAFunction
      | Some (Ref f) \<Rightarrow> Inl NotARoute
      | Some (Fun (NodeRoute name accum)) \<Rightarrow>
          (case get_prop h accum ''_route'' of
             None \<Rightarrow> Inr (cleanroot (o_root conf) @ ''/'' @ name)
           | Some r \<Rightarrow>
               (case route_at n conf h accum of
                  Inl e \<Rightarrow> Inl e
                | Inr up \<Rightarrow> Inr (up @ ''/'' @ name)))
      | Some (Fun (InstRoute name ident accum self)) \<Rightarrow>
          (case get_prop h accum ''_route'' of
             None \<Rightarrow> Inr (cleanroot (o_root conf) @ ''/'' @ name @ ''/'' @ ident)
           | Some r \<Rightarrow>
               (case route_at n conf h self of
                  Inl e \<Rightarrow> Inl e
                | Inr up \<Rightarrow> Inr (up @ ''/'' @ name @ ''/'' @ ident)))
      | Some (Fun c) \<Rightarrow> Inl NotARoute)"

text \<open>
  Navigation from an object to an object: \<^verbatim>\<open>cur.s\<close>, or the method call \<^verbatim>\<open>cur.s(id)\<close>
  whose receiver is \<^verbatim>\<open>cur\<close>. A missing property or a plain object cannot be called
  (\<open>NotAFunction\<close>); a step that yields a verb, an accessor or \<^verbatim>\<open>undefined\<close> leaves the
  hierarchy (\<open>NotAnObject\<close>); a step that yields a value of the engine, or a call that
  faults, leaves the model (\<open>Stopped\<close>).
\<close>

datatype step = Prop string | Call string string

fun nav_step :: "opts \<Rightarrow> heap \<Rightarrow> addr \<Rightarrow> step \<Rightarrow> failure + (addr \<times> heap)" where
  "nav_step conf h cur (Prop s) =
     (case get_prop h cur s of
        None \<Rightarrow> if native h cur s then Inl (Stopped (BuiltIn s)) else Inl NotAnObject
      | Some (Fun c) \<Rightarrow> Inl NotAnObject
      | Some (Ref a) \<Rightarrow> Inr (a, h))"
| "nav_step conf h cur (Call s ident) =
     (case get_prop h cur s of
        None \<Rightarrow> if native h cur s then Inl (Stopped (BuiltIn s)) else Inl NotAFunction
      | Some (Fun c) \<Rightarrow> Inl NotAnObject
      | Some (Ref a) \<Rightarrow>
          (case closure_at h a of
             None \<Rightarrow> Inl NotAFunction
           | Some (ResourceFn name v accum) \<Rightarrow>
               (case invoke conf h cur name v accum ident of
                  Inl e \<Rightarrow> Inl (Stopped e)
                | Inr (Ref out, h') \<Rightarrow> Inr (out, h')
                | Inr (Fun c, h') \<Rightarrow> Inl NotAnObject)
           | Some c \<Rightarrow> Inl NotAnObject))"

fun nav :: "opts \<Rightarrow> heap \<Rightarrow> addr \<Rightarrow> step list \<Rightarrow> failure + (addr \<times> heap)" where
  "nav conf h cur [] = Inr (cur, h)"
| "nav conf h cur (s # ss) =
     (case nav_step conf h cur s of
        Inl e \<Rightarrow> Inl e
      | Inr (a, h') \<Rightarrow> nav conf h' a ss)"

text \<open>
  The verbs of \<^verbatim>\<open>proto\<close>. \<^verbatim>\<open>create\<close> reads its method from
  \<^verbatim>\<open>resource.props && resource.props.createMethod || 'post'\<close>.
\<close>

definition create_method :: "jsval \<Rightarrow> jsval" where
  "create_method res =
     (let p = member res ''props''
      in if truthy p \<and> truthy (member p ''createMethod'') then member p ''createMethod''
         else JString ''post'')"

record verb_args =
  a_props :: dict
  a_query :: dict
  a_cb :: "callback option"

definition cb_or_noop :: "callback option \<Rightarrow> callback" where
  "cb_or_noop cb = (case cb of None \<Rightarrow> Noop | Some c \<Rightarrow> c)"

text \<open>
  Each verb hands \<^verbatim>\<open>factory(this._route(), method, props, query, headers, cb)\<close> its own
  method, properties and query: \<^verbatim>\<open>create\<close>, \<^verbatim>\<open>patch\<close> and \<^verbatim>\<open>update\<close> pass the given
  properties and \<^verbatim>\<open>{}\<close> as query, \<^verbatim>\<open>get\<close> and \<^verbatim>\<open>list\<close> pass \<^verbatim>\<open>{}\<close> and the given
  query, \<^verbatim>\<open>del\<close> and \<^verbatim>\<open>delete\<close> pass \<^verbatim>\<open>{}\<close> twice.
\<close>

fun verb_method :: "verb \<Rightarrow> jsval \<Rightarrow> jsval" where
  "verb_method VCreate res = create_method res"
| "verb_method VPatch res = JString ''patch''"
| "verb_method VDel res = JString ''delete''"
| "verb_method VDelete res = JString ''delete''"
| "verb_method VGet res = JString ''get''"
| "verb_method VList res = JString ''get''"
| "verb_method VUpdate res = JString ''put''"

fun verb_props :: "verb \<Rightarrow> verb_args \<Rightarrow> dict" where
  "verb_props VCreate args = a_props args"
| "verb_props VPatch args = a_props args"
| "verb_props VDel args = Map.empty"
| "verb_props VDelete args = Map.empty"
| "verb_props VGet args = Map.empty"
| "verb_props VList args = Map.empty"
| "verb_props VUpdate args = a_props args"

fun verb_query :: "verb \<Rightarrow> verb_args \<Rightarrow> dict" where
  "verb_query VCreate args = Map.empty"
| "verb_query VPatch args = Map.empty"
| "verb_query VDel args = Map.empty"
| "verb_query VDelete args = Map.empty"
| "verb_query VGet args = a_query args"
| "verb_query VList args = a_query args"
| "verb_query VUpdate args = Map.empty"

definition verb_call ::
  "opts \<Rightarrow> verb \<Rightarrow> jsval \<Rightarrow> string \<Rightarrow> verb_args \<Rightarrow> string verb_result" where
  "verb_call conf kind res route args =
     verbFactory (o_beforeEach conf) route (verb_method kind res) (verb_props kind args)
       (verb_query kind args) (o_headers conf) (Some (cb_or_noop (a_cb args)))"

text \<open>
  The method call \<^verbatim>\<open>x.key(...)\<close> on the object at \<open>x\<close>: the verb stored under \<open>key\<close>
  first evaluates \<^verbatim>\<open>this._route()\<close>.
\<close>

definition call_method ::
  "nat \<Rightarrow> opts \<Rightarrow> heap \<Rightarrow> addr \<Rightarrow> string \<Rightarrow> verb_args \<Rightarrow> failure + string verb_result" where
  "call_method n conf h x key args =
     (case get_prop h x key of
        Some (Fun (VerbFn kind res)) \<Rightarrow>
          (case route_at n conf h x of
             Inl e \<Rightarrow> Inl e
           | Inr route \<Rightarrow> Inr (verb_call conf kind res route args))
      | None \<Rightarrow> if native h x key then Inl (Stopped (BuiltIn key)) else Inl NotAFunction
      | _ \<Rightarrow> Inl NotAFunction)"

section \<open>Construction\<close>

record config =
  cfg_root :: string
  cfg_endpoints :: "endpoint list"
  cfg_versions :: "string list"
  cfg_headers :: "dict option"
  cfg_altMethodNames :: alt_names
  cfg_beforeEach :: "hook option"
  cfg_request :: bool

text \<open>
  What the construction throws: the three errors of the validation, or a fault of the
  tree merger or of the compiler.
\<close>

datatype config_error = RootRequired | EndpointsRequired | RequestRequired | Faulted fault


definition DEFAULT_HEADERS :: dict where
  "DEFAULT_HEADERS =
     [''Content-Type'' \<mapsto> ''application/json'', ''Accept'' \<mapsto> ''application/json'']"

text \<open>
  \<^verbatim>\<open>config.versions\<close> is a string or an array of strings; \<open>cfg_versions\<close> is
  \<^verbatim>\<open>[].concat(versions)\<close>. A missing \<^verbatim>\<open>root\<close> is the empty string, a missing
  \<^verbatim>\<open>endpoints\<close> the empty list, and \<open>cfg_request\<close> says whether a request function was
  supplied.
\<close>

definition commonVersions :: "config \<Rightarrow> string list" where
  "commonVersions cfg = compact (cfg_versions cfg)"

text \<open>
  The sequences handed to \<^verbatim>\<open>normalize\<close>: the non-empty entries of \<^verbatim>\<open>resources\<close>, then
  all of \<^verbatim>\<open>simpleResources\<close>, sorted by descending length.
\<close>

definition all_paths :: "config \<Rightarrow> path list" where
  "all_paths cfg =
     (case buildResources (cfg_endpoints cfg) (commonVersions cfg) of
        (simpleResources, resources, vers) \<Rightarrow>
          sort_key (\<lambda>ls. - int (length ls))
            (filter (\<lambda>ls. ls \<noteq> []) resources @ simpleResources))"

definition make_opts :: "config \<Rightarrow> opts" where
  "make_opts cfg =
     \<lparr>o_root = cfg_root cfg,
      o_headers = DEFAULT_HEADERS ++ or_empty (cfg_headers cfg),
      o_altMethodNames = cfg_altMethodNames cfg,
      o_beforeEach = cfg_beforeEach cfg\<rparr>"

text \<open>\<^verbatim>\<open>build(opts)(tree)\<close>: the default accumulator \<^verbatim>\<open>function() {}\<close> is object 0.\<close>

definition build :: "opts \<Rightarrow> (string \<times> tree) list \<Rightarrow> fault + heap" where
  "build conf t = loop conf t 0 [\<lparr>callable = Some Plain, props = []\<rparr>]"

definition quickrest :: "config \<Rightarrow> config_error + heap" where
  "quickrest cfg =
     (if trim (cfg_root cfg) = [] then Inl RootRequired
      else if cfg_endpoints cfg = [] then Inl EndpointsRequired
      else if \<not> cfg_request cfg then Inl RequestRequired
      else (case normalize (all_paths cfg) of
              Inl e \<Rightarrow> Inl (Faulted e)
            | Inr t \<Rightarrow>
                (case build (make_opts cfg) t of
                   Inl e \<Rightarrow> Inl (Faulted e)
                 | Inr h \<Rightarrow> Inr h)))"

section \<open>Example inputs\<close>

definition std_names :: alt_names where
  "std_names = \<lparr>alt_patch = None, alt_create = None, alt_update = None, alt_del = None,
     alt_list = None, alt_get = None\<rparr>"

definition plain_config :: "string \<Rightarrow> string list \<Rightarrow> endpoint list \<Rightarrow> config" where
  "plain_config r vs es =
     \<lparr>cfg_root = r, cfg_endpoints = es, cfg_versions = vs, cfg_headers = None,
      cfg_altMethodNames = std_names, cfg_beforeEach = None, cfg_request = True\<rparr>"

definition hooked_opts :: "hook \<Rightarrow> opts" where
  "hooked_opts hk =
     \<lparr>o_root = ''https://api.example.com'', o_headers = DEFAULT_HEADERS,
      o_altMethodNames = std_names, o_beforeEach = Some hk\<rparr>"

definition no_args :: verb_args where
  "no_args = \<lparr>a_props = Map.empty, a_query = Map.empty, a_cb = None\<rparr>"

text \<open>The endpoint \<^verbatim>\<open>{resource: 'comments', createMethod: 'put'}\<close>.\<close>

definition put_config :: config where
  "put_config = plain_config ''https://x'' []
     [Configured \<lparr>resource = ''comments'', versions = [], createMethod = Some ''put''\<rparr>]"

text \<open>A hook that returns \<^verbatim>\<open>undefined\<close> and completes with \<^verbatim>\<open>(null, {headers: {'X-Token': 'abc'}})\<close>.\<close>

definition token_mod :: modification where
  "token_mod = \<lparr>m_headers = Some [''X-Token'' \<mapsto> ''abc''], m_properties = None, m_query = None\<rparr>"

definition token_hook :: hook where
  "token_hook p q h = \<lparr>hook_returns = HUndefined, hook_completions = [(None, Some token_mod)]\<rparr>"

text \<open>A hook that returns \<^verbatim>\<open>undefined\<close> and completes with the error \<^verbatim>\<open>'denied'\<close>.\<close>

definition failing_hook :: hook where
  "failing_hook p q h = \<lparr>hook_returns = HUndefined, hook_completions = [(Some ''denied'', None)]\<rparr>"

section \<open>Observations\<close>

text \<open>
  The subtree that a path of segment names reaches, the invariant of an object's keys,
  and the number of nodes of a tree; a leaf has no children.
\<close>

fun lookup :: "tree \<Rightarrow> path \<Rightarrow> tree option" where
  "lookup t [] = Some t"
| "lookup t (k # ks) = (case map_of (kids t) k of None \<Rightarrow> None | Some c \<Rightarrow> lookup c ks)"


fun count_nodes :: "tree \<Rightarrow> nat" where
  "count_nodes Leaf = 1"
| "count_nodes (Node ks) = Suc (sum_list (map (\<lambda>kt. count_nodes (snd kt)) ks))"

text \<open>
  The properties that \<^verbatim>\<open>loop\<close> gives a resource function before its children are
  attached, and those that \<^verbatim>\<open>fn(id)\<close> gives the instance object.
\<close>

definition node_base :: "string \<Rightarrow> addr \<Rightarrow> opts \<Rightarrow> (string \<times> val) list" where
  "node_base name accum conf =
     assign [(''_route'', Fun (NodeRoute name accum))] (proto (JString name) conf)"


text \<open>
  \<open>attached conf ex h x base ks\<close>: the object at \<open>x\<close> holds the compiled children
  \<open>ks\<close>, each a resource function closed over \<open>x\<close> with its own children attached,
  and otherwise the properties \<open>base\<close>, except perhaps under the names \<open>ex\<close>.
\<close>

inductive attached ::
  "opts \<Rightarrow> string set \<Rightarrow> heap \<Rightarrow> addr \<Rightarrow> (string \<times> val) list \<Rightarrow> (string \<times> tree) list \<Rightarrow> bool"
  for conf :: opts and ex :: "string set" and h :: heap where
  attachedI:
    "x < length h \<Longrightarrow>
     (\<forall>k. k \<notin> fst ` set ks \<and> k \<notin> ex \<longrightarrow> get_prop h x k = map_of base k) \<Longrightarrow>
     (\<forall>k t. (k, t) \<in> set ks \<longrightarrow>
        (\<exists>f. get_prop h x k = Some (Ref f) \<and> x < f \<and> f < length h
           \<and> callable (h ! f) = Some (ResourceFn k t x)
           \<and> attached conf ex h f (node_base k x conf) (kids t))) \<Longrightarrow>
     attached conf ex h x base ks"

text \<open>
  \<open>routes conf h x d r\<close>: the accessors from \<open>x\<close> up to an object without
  \<^verbatim>\<open>_route\<close> form a chain of \<open>d\<close> calls that yields \<open>r\<close>.
\<close>

inductive routes :: "opts \<Rightarrow> heap \<Rightarrow> addr \<Rightarrow> nat \<Rightarrow> string \<Rightarrow> bool"
  for conf :: opts and h :: heap where
  routes_top:
    "x < length h \<Longrightarrow> get_prop h x ''_route'' = None \<Longrightarrow>
     routes conf h x 0 (cleanroot (o_root conf))"
| routes_node:
    "get_prop h x ''_route'' = Some (Fun (NodeRoute name accum)) \<Longrightarrow>
     routes conf h accum d up \<Longrightarrow>
     routes conf h x (Suc d) (up @ ''/'' @ name)"
| routes_inst:
    "get_prop h x ''_route'' = Some (Fun (InstRoute name ident accum accum)) \<Longrightarrow>
     routes conf h accum d up \<Longrightarrow>
     routes conf h x (Suc d) (up @ ''/'' @ name @ ''/'' @ ident)"




definition verb_names :: "opts \<Rightarrow> string list" where
  "verb_names conf = map fst (proto JUndefined conf)"


text \<open>
  The names that no assignment can give a function: the read-only ones and
  \<^verbatim>\<open>__proto__\<close>.
\<close>

definition unwritable :: "string list" where
  "unwritable = ''__proto__'' # function_read_only"


inductive reachable :: "opts \<Rightarrow> heap \<Rightarrow> heap \<Rightarrow> bool"
  for conf :: opts and h :: heap where
  reachable_start: "reachable conf h h"
| reachable_step:
    "reachable conf h h1 \<Longrightarrow> nav_step conf h1 cur s = Inr (a, h2) \<Longrightarrow> reachable conf h h2"


text \<open>
  The spec's words for the Path Normalizer's first output: every simple declaration, in
  declaration order, as its own segment sequence followed by one replica per version
  prefix with the prefix prepended; a configured declaration contributes nothing to it.
  \<open>segments\<close> is the sequence that \<^verbatim>\<open>buildResources\<close> returns for one declaration.
\<close>

definition replicas :: "string list \<Rightarrow> endpoint \<Rightarrow> path list" where
  "replicas cvs e =
     (case e of
        Simple s \<Rightarrow> compact (split_slash s) # map (\<lambda>cv. cv # compact (split_slash s)) cvs
      | Configured c \<Rightarrow> [])"

definition segments :: "endpoint \<Rightarrow> path" where
  "segments e =
     (case e of
        Simple s \<Rightarrow> compact (split_slash s)
      | Configured c \<Rightarrow> split_slash (resource c))"


definition out_config :: config where
  "out_config = plain_config ''https://api.example.com'' [] [Simple ''out'']"

definition nested_config :: config where
  "nested_config = plain_config ''https://api.example.com'' [] [Simple ''users/posts'']"

definition shared_config :: config where
  "shared_config = plain_config ''https://api.example.com'' []
     [Simple ''users/posts'', Simple ''users/comments'']"

definition verb_clash_config :: config where
  "verb_clash_config = plain_config ''https://api.example.com'' []
     [Simple ''users'', Simple ''users/create'']"

definition v2_config :: "string \<Rightarrow> config" where
  "v2_config r = plain_config r [''v2''] [Simple ''users'']"

text \<open>
  Two declarations with a shared prefix, one of them ending in a name that every object
  inherits; and a resource whose name is a read-only property of functions.
\<close>

definition inherited_config :: config where
  "inherited_config = plain_config ''https://api.example.com'' []
     [Simple ''users/toString'', Simple ''users/posts'']"

definition read_only_config :: config where
  "read_only_config = plain_config ''https://api.example.com'' []
     [Simple ''users/name'', Simple ''users/posts'']"

section \<open>Properties\<close>

subsection \<open>The root prefix\<close>

text \<open>
  C9. The claim: the root prefix of every computed route never ends with a path
  separator. \<^verbatim>\<open>cleanroot\<close> tests \<^verbatim>\<open>endsWith('/')\<close> before it trims, so a root whose
  slash is followed by white space passes validation, is trimmed and keeps its slash:
  the root \<^verbatim>\<open>'https://x/ '\<close> gives the prefix \<^verbatim>\<open>'https://x/'\<close> and the route
  \<^verbatim>\<open>'https://x//users'\<close> for the resource \<^verbatim>\<open>users\<close>.
\<close>

theorem cleanroot_slash_before_space:
  "trim ''https://x/ '' \<noteq> [] \<and> cleanroot ''https://x/ '' = ''https://x/''
   \<and> (case quickrest (plain_config ''https://x/ '' [] [Simple ''users'']) of
         Inl e \<Rightarrow> None
       | Inr h \<Rightarrow>
           (case nav (make_opts (plain_config ''https://x/ '' [] [Simple ''users''])) h 0
                   [Prop ''users''] of
              Inl e \<Rightarrow> None
            | Inr (a, h') \<Rightarrow>
                Some (route_at 1 (make_opts (plain_config ''https://x/ '' [] [Simple ''users'']))
                        h' a)))
      = Some (Inr ''https://x//users'')"
  by code_simp

text \<open>The roots of the claim's example do lose their slashes.\<close>

lemma cleanroot_examples:
  "cleanroot ''https://x'' = ''https://x''"
  "cleanroot ''https://x/'' = ''https://x''"
  "cleanroot ''https://x//'' = ''https://x''"
  by (simp_all add: cleanroot_def endsWith_slash_def trim_def is_white_space_def)

subsection \<open>Empty declarations\<close>

text \<open>
  C6. The claim: an empty or all-separator string endpoint is dropped before merging, so
  adding it leaves the top-level resource names unchanged. The filter is applied to
  \<^verbatim>\<open>resources\<close> only; \<^verbatim>\<open>simpleResources\<close>, concatenated afterwards, still holds the
  empty sequence, and \<^verbatim>\<open>place\<close> turns it into the key \<^verbatim>\<open>undefined\<close>: the endpoints
  \<^verbatim>\<open>['users', '']\<close> and \<^verbatim>\<open>['users', '/']\<close> give the top-level names \<^verbatim>\<open>users\<close> and
  \<^verbatim>\<open>undefined\<close>, where \<^verbatim>\<open>['users']\<close> gives \<^verbatim>\<open>users\<close> alone.
\<close>

theorem empty_endpoint_adds_undefined:
  "(case quickrest (plain_config ''https://x'' [] [Simple ''users'']) of
      Inl e \<Rightarrow> [] | Inr h \<Rightarrow> map fst (props (h ! 0))) = [''users'']
   \<and> (case quickrest (plain_config ''https://x'' [] [Simple ''users'', Simple '''']) of
      Inl e \<Rightarrow> [] | Inr h \<Rightarrow> map fst (props (h ! 0))) = [''users'', ''undefined'']
   \<and> (case quickrest (plain_config ''https://x'' [] [Simple ''users'', Simple ''/'']) of
      Inl e \<Rightarrow> [] | Inr h \<Rightarrow> map fst (props (h ! 0))) = [''users'', ''undefined'']"
  by code_simp

subsection \<open>The create method\<close>

text \<open>
  C5. The claim: a resource declared with a \<^verbatim>\<open>createMethod\<close> creates with that method.
  \<^verbatim>\<open>proto\<close> is called with the resource's name, a string, whose \<^verbatim>\<open>props\<close> is
  \<^verbatim>\<open>undefined\<close>, and the configuration record never reaches the tree: for the endpoint
  \<^verbatim>\<open>{resource: 'comments', createMethod: 'put'}\<close>, \<^verbatim>\<open>api.comments.create()\<close> calls the
  transport with the method \<^verbatim>\<open>post\<close>.
\<close>

theorem configured_create_uses_post:
  "(case quickrest put_config of
      Inl e \<Rightarrow> None
    | Inr h \<Rightarrow>
        (case nav (make_opts put_config) h 0 [Prop ''comments''] of
           Inl e \<Rightarrow> None
         | Inr (a, h') \<Rightarrow>
             (case call_method 1 (make_opts put_config) h' a ''create'' no_args of
                Inl e \<Rightarrow> None
              | Inr r \<Rightarrow>
                  (case direct_effects r of
                     [Request c] \<Rightarrow> Some (t_url c, t_method c)
                   | _ \<Rightarrow> None))))
   = Some (''https://x/comments'', JString ''post'')"
  by code_simp

text \<open>Whatever the name, the method that \<^verbatim>\<open>proto(name, conf)\<close> computes for create is post.\<close>

lemma create_method_of_name: "create_method (JString name) = JString ''post''"
  by (simp add: create_method_def)

subsection \<open>The pre-request hook\<close>

text \<open>
  C8. When the configured hook returns \<^verbatim>\<open>undefined\<close>, a verb returns \<^verbatim>\<open>undefined\<close> and
  does nothing on its synchronous path; each completion \<^verbatim>\<open>(null, mod)\<close> of the hook
  calls the transport with the headers, properties and query of \<^verbatim>\<open>mod\<close> merged over
  the verb's own, and with the caller's callback; a header of \<^verbatim>\<open>mod\<close> is a header of
  that call.
\<close>

theorem hook_undefined_defers_to_completion:
  assumes hook: "o_beforeEach conf = Some hook"
    and undef: "hook_returns (hook (verb_props kind args) (verb_query kind args) (o_headers conf))
                  = HUndefined"
    and later: "(None, Some modi)
                  \<in> set (hook_completions
                           (hook (verb_props kind args) (verb_query kind args) (o_headers conf)))"
  shows "returns (verb_call conf kind res route args) = ReturnsUndefined
     \<and> direct_effects (verb_call conf kind res route args) = []
     \<and> Request \<lparr>t_url = route, t_method = verb_method kind res,
           t_props = verb_props kind args ++ or_empty (m_properties modi),
           t_query = verb_query kind args ++ or_empty (m_query modi),
           t_headers = o_headers conf ++ or_empty (m_headers modi),
           t_finish = Some (cb_or_noop (a_cb args))\<rparr>
         \<in> set (completion_effects (verb_call conf kind res route args))
     \<and> (\<forall>k v hs. m_headers modi = Some hs \<and> hs k = Some v \<longrightarrow>
           (o_headers conf ++ or_empty (m_headers modi)) k = Some v)"
proof -
  let ?b = "hook (verb_props kind args) (verb_query kind args) (o_headers conf)"
  let ?spy = "spy route (verb_method kind res) (verb_props kind args) (verb_query kind args)
                (o_headers conf) (Some (cb_or_noop (a_cb args)))"
  have r: "verb_call conf kind res route args =
      \<lparr>returns = ReturnsUndefined, direct_effects = [],
       completion_effects = map ?spy (hook_completions ?b)\<rparr>"
    using undef by (simp add: verb_call_def hook verbFactory_def Let_def)
  have s: "?spy (None, Some modi) =
           Request \<lparr>t_url = route, t_method = verb_method kind res,
             t_props = verb_props kind args ++ or_empty (m_properties modi),
             t_query = verb_query kind args ++ or_empty (m_query modi),
             t_headers = o_headers conf ++ or_empty (m_headers modi),
             t_finish = Some (cb_or_noop (a_cb args))\<rparr>"
    by (simp add: spy_def processed_def Let_def)
  have m: "\<forall>k v hs. m_headers modi = Some hs \<and> hs k = Some v \<longrightarrow>
           (o_headers conf ++ or_empty (m_headers modi)) k = Some v"
    by (auto simp: or_empty_def map_add_def)
  from later have "?spy (None, Some modi)
           \<in> set (completion_effects (verb_call conf kind res route args))"
    unfolding r by (simp add: image_iff Bex_def) blast
  with r s m show ?thesis by simp
qed

theorem hook_undefined_defers_to_completion_witness:
  "o_beforeEach (hooked_opts token_hook) = Some token_hook
   \<and> hook_returns (token_hook Map.empty Map.empty DEFAULT_HEADERS) = HUndefined
   \<and> returns (verb_call (hooked_opts token_hook) VGet (JString ''users'')
                ''https://api.example.com/users'' no_args) = ReturnsUndefined
   \<and> (\<exists>c. Request c
              \<in> set (completion_effects
                       (verb_call (hooked_opts token_hook) VGet (JString ''users'')
                          ''https://api.example.com/users'' no_args))
          \<and> t_headers c ''X-Token'' = Some ''abc''
          \<and> t_headers c ''Accept'' = Some ''application/json'')"
proof -
  have a: "o_beforeEach (hooked_opts token_hook) = Some token_hook"
    by (simp add: hooked_opts_def)
  have b: "hook_returns (token_hook (verb_props VGet no_args) (verb_query VGet no_args)
             (o_headers (hooked_opts token_hook))) = HUndefined"
    by (simp add: token_hook_def)
  have c: "(None, Some token_mod)
             \<in> set (hook_completions (token_hook (verb_props VGet no_args)
                       (verb_query VGet no_args) (o_headers (hooked_opts token_hook))))"
    by (simp add: token_hook_def)
  from hook_undefined_defers_to_completion
         [OF a b c, of "JString ''users''" "''https://api.example.com/users''"]
  show ?thesis
    apply (intro conjI)
       apply (simp add: hooked_opts_def)
      apply (simp add: token_hook_def)
     apply simp
    apply (rule exI [where x = "\<lparr>t_url = ''https://api.example.com/users'',
           t_method = verb_method VGet (JString ''users''),
           t_props = verb_props VGet no_args ++ or_empty (m_properties token_mod),
           t_query = verb_query VGet no_args ++ or_empty (m_query token_mod),
           t_headers = o_headers (hooked_opts token_hook) ++ or_empty (m_headers token_mod),
           t_finish = Some (cb_or_noop (a_cb no_args))\<rparr>"])
    apply (simp add: or_empty_def hooked_opts_def DEFAULT_HEADERS_def map_add_def token_mod_def)
    done
qed

text \<open>
  C4, as stated, promises a rejected promise when the caller passed no callback. The
  hook \<open>failing_hook\<close> returns \<^verbatim>\<open>undefined\<close> and completes with the error
  \<^verbatim>\<open>'denied'\<close>; \<^verbatim>\<open>get()\<close> without a callback then returns \<^verbatim>\<open>undefined\<close>, no promise,
  and the error goes to \<^verbatim>\<open>noop\<close>.
\<close>

theorem hook_error_without_callback_returns_no_promise:
  "returns (verb_call (hooked_opts failing_hook) VGet (JString ''users'')
       ''https://api.example.com/users'' no_args) \<noteq> ReturnsRejected ''denied''
   \<and> returns (verb_call (hooked_opts failing_hook) VGet (JString ''users'')
       ''https://api.example.com/users'' no_args) = ReturnsUndefined
   \<and> completion_effects (verb_call (hooked_opts failing_hook) VGet (JString ''users'')
       ''https://api.example.com/users'' no_args) = [Invoke Noop ''denied'']"
  by (simp add: verb_call_def verbFactory_def hooked_opts_def failing_hook_def no_args_def
        cb_or_noop_def spy_def)

text \<open>
  C4, amended. When the configured hook returns \<^verbatim>\<open>undefined\<close> and every completion it
  makes signals an error, the verb returns \<^verbatim>\<open>undefined\<close>, the transport is never
  called, and each completion passes its error to the caller's callback (\<^verbatim>\<open>noop\<close> when
  the caller passed none) as the error argument: one delivery for a hook that completes
  once.
\<close>

theorem hook_error_skips_transport:
  assumes hook: "o_beforeEach conf = Some hook"
    and undef: "hook_returns (hook (verb_props kind args) (verb_query kind args) (o_headers conf))
                  = HUndefined"
    and errs: "\<forall>c \<in> set (hook_completions
                            (hook (verb_props kind args) (verb_query kind args) (o_headers conf))).
                 fst c \<noteq> None"
  shows "returns (verb_call conf kind res route args) = ReturnsUndefined
     \<and> direct_effects (verb_call conf kind res route args) = []
     \<and> completion_effects (verb_call conf kind res route args) =
         map (\<lambda>c. Invoke (cb_or_noop (a_cb args)) (the (fst c)))
           (hook_completions (hook (verb_props kind args) (verb_query kind args) (o_headers conf)))"
proof -
  let ?b = "hook (verb_props kind args) (verb_query kind args) (o_headers conf)"
  let ?spy = "spy route (verb_method kind res) (verb_props kind args) (verb_query kind args)
                (o_headers conf) (Some (cb_or_noop (a_cb args)))"
  have r: "verb_call conf kind res route args =
      \<lparr>returns = ReturnsUndefined, direct_effects = [],
       completion_effects = map ?spy (hook_completions ?b)\<rparr>"
    using undef by (simp add: verb_call_def hook verbFactory_def Let_def)
  have "map ?spy (hook_completions ?b)
      = map (\<lambda>c. Invoke (cb_or_noop (a_cb args)) (the (fst c))) (hook_completions ?b)"
    using errs by (intro map_cong refl) (auto simp: spy_def split: prod.splits option.splits)
  with r show ?thesis by simp
qed

theorem hook_error_skips_transport_witness:
  "o_beforeEach (hooked_opts failing_hook) = Some failing_hook
   \<and> hook_returns (failing_hook Map.empty Map.empty DEFAULT_HEADERS) = HUndefined
   \<and> returns (verb_call (hooked_opts failing_hook) VCreate (JString ''users'')
       ''https://api.example.com/users'' (no_args\<lparr>a_cb := Some UserCb\<rparr>)) = ReturnsUndefined
   \<and> direct_effects (verb_call (hooked_opts failing_hook) VCreate (JString ''users'')
       ''https://api.example.com/users'' (no_args\<lparr>a_cb := Some UserCb\<rparr>)) = []
   \<and> completion_effects (verb_call (hooked_opts failing_hook) VCreate (JString ''users'')
       ''https://api.example.com/users'' (no_args\<lparr>a_cb := Some UserCb\<rparr>))
       = [Invoke UserCb ''denied'']"
  using hook_error_skips_transport
          [of "hooked_opts failing_hook" failing_hook VCreate "no_args\<lparr>a_cb := Some UserCb\<rparr>"
              "JString ''users''" "''https://api.example.com/users''"]
  by (simp add: hooked_opts_def failing_hook_def no_args_def cb_or_noop_def)

subsection \<open>Own properties\<close>

lemma set_insert_key: "set (insert_key k v m) = insert (k, v) (set m)"
  by (induction m) auto

lemma map_of_insert_key:
  "map_of m k = None \<Longrightarrow> map_of (insert_key k v m) k' = (if k' = k then Some v else map_of m k')"
  by (induction m) (auto split: if_splits)

lemma map_of_write_key:
  "map_of (write_key k v m) k' = (if k' = k then Some v else map_of m k')"
  by (simp add: write_key_def map_of_insert_key update_conv')

lemma keys_write_key: "fst ` set (write_key k v m) = insert k (fst ` set m)"
  by (auto simp: write_key_def set_insert_key dom_update map_of_eq_None_iff [symmetric]
        simp del: map_of_eq_None_iff)




lemma write_key_keeps_keys: "map_of m k = Some u \<Longrightarrow> map fst (write_key k v m) = map fst m"
proof -
  assume a: "map_of m k = Some u"
  then have "k \<in> fst ` set m" by (auto dest!: map_of_SomeD intro: rev_image_eqI)
  with a show ?thesis by (simp add: write_key_def update_keys)
qed

subsection \<open>The merged tree\<close>






lemma lookup_Leaf: "lookup Leaf q = Some t \<longleftrightarrow> q = [] \<and> t = Leaf"
  by (cases q) auto

lemma lookup_append:
  "lookup t (q @ r) = (case lookup t q of None \<Rightarrow> None | Some c \<Rightarrow> lookup c r)"
  by (induction q arbitrary: t) (auto split: option.splits)

lemma place_keeps:
  "lookup (Node m) q = Some t \<Longrightarrow> place m p = Inr m'
     \<Longrightarrow> \<exists>t'. lookup (Node m') q = Some t' \<and> (t \<noteq> Leaf \<longrightarrow> t' \<noteq> Leaf)"
proof (induction m p arbitrary: q t m' rule: place.induct)
  case (1 m)
  then show ?case
    by (cases q) (auto simp: map_of_write_key split: option.splits if_splits)
next
  case (2 m head)
  then show ?case
    by (cases q) (auto simp: map_of_write_key split: option.splits if_splits)
next
  case (3 m head v va)
  show ?case
  proof (cases q)
    case Nil
    with 3(4) show ?thesis by auto
  next
    case (Cons k ks)
    with 3(4) obtain c where c: "map_of m k = Some c" "lookup c ks = Some t"
      by (auto split: option.splits)
    show ?thesis
    proof (cases "k = head")
      case False
      with c Cons 3(5) show ?thesis
        by (auto simp: map_of_write_key split: option.splits tree.splits if_splits sum.splits)
    next
      case True
      show ?thesis
      proof (cases c)
        case Leaf
        with c have "ks = []" "t = Leaf" by (simp_all add: lookup_Leaf)
        with c True Cons Leaf 3(5) show ?thesis
          by (auto simp: map_of_write_key split: sum.splits)
      next
        case (Node kids')
        with 3(5) c(1) True obtain node where n: "place kids' (v # va) = Inr node"
          "m' = write_key head (Node node) m"
          by (auto split: sum.splits)
        from c(2) Node have "lookup (Node kids') ks = Some t" by simp
        from 3(3) [OF _ _ this n(1)] c(1) True Node
        obtain t' where "lookup (Node node) ks = Some t'"
          "t \<noteq> Leaf \<longrightarrow> t' \<noteq> Leaf" by auto
        with True Cons n(2) show ?thesis
          by (simp add: map_of_write_key)
      qed
    qed
  qed
qed

lemma place_adds:
  "p \<noteq> [] \<Longrightarrow> set p \<inter> set object_natives = {} \<Longrightarrow> place m p = Inr m'
     \<Longrightarrow> lookup (Node m') p \<noteq> None"
proof (induction m p arbitrary: m' rule: place.induct)
  case (1 m)
  then show ?case by simp
next
  case (2 m head)
  then show ?case by (auto simp: map_of_write_key split: option.splits if_splits)
next
  case (3 m head v va)
  from 3(5) have clean: "head \<notin> set object_natives" "set (v # va) \<inter> set object_natives = {}"
    by auto
  show ?case
  proof (cases "map_of m head")
    case None
    with 3(6) clean obtain node where n: "place [] (v # va) = Inr node"
      "m' = write_key head (Node node) m"
      by (auto split: sum.splits)
    from 3(1) [OF None clean(1) _ clean(2) n(1)] n(2) show ?thesis
      by (simp add: map_of_write_key)
  next
    case (Some c)
    show ?thesis
    proof (cases c)
      case Leaf
      with 3(6) Some obtain node where n: "place [] (v # va) = Inr node"
        "m' = write_key head (Node node) m"
        by (auto split: sum.splits)
      from 3(2) [OF Some Leaf _ clean(2) n(1)] n(2) show ?thesis
        by (simp add: map_of_write_key)
    next
      case (Node ks)
      with 3(6) Some obtain node where n: "place ks (v # va) = Inr node"
        "m' = write_key head (Node node) m"
        by (auto split: sum.splits)
      from 3(3) [OF Some Node _ clean(2) n(1)] n(2) show ?thesis
        by (simp add: map_of_write_key)
    qed
  qed
qed

lemma place_each_keeps:
  "lookup (Node m) q = Some t \<Longrightarrow> place_each m ls = Inr m'
     \<Longrightarrow> \<exists>t'. lookup (Node m') q = Some t' \<and> (t \<noteq> Leaf \<longrightarrow> t' \<noteq> Leaf)"
proof (induction ls arbitrary: m t)
  case Nil
  then show ?case by simp
next
  case (Cons p ls)
  from Cons.prems(2) obtain m1 where m1: "place m p = Inr m1" "place_each m1 ls = Inr m'"
    by (auto split: sum.splits)
  from place_keeps [OF Cons.prems(1) m1(1)] obtain t1
    where t1: "lookup (Node m1) q = Some t1" "t \<noteq> Leaf \<longrightarrow> t1 \<noteq> Leaf" by blast
  from Cons.IH [OF t1(1) m1(2)] t1(2) show ?case by auto
qed

lemma place_each_adds:
  "p \<in> set ls \<Longrightarrow> p \<noteq> [] \<Longrightarrow> set p \<inter> set object_natives = {} \<Longrightarrow> place_each m ls = Inr m'
     \<Longrightarrow> lookup (Node m') p \<noteq> None"
proof (induction ls arbitrary: m)
  case Nil
  then show ?case by simp
next
  case (Cons x ls)
  from Cons.prems(4) obtain m1 where m1: "place m x = Inr m1" "place_each m1 ls = Inr m'"
    by (auto split: sum.splits)
  show ?case
  proof (cases "p = x")
    case True
    with Cons.prems m1(1) obtain t where "lookup (Node m1) p = Some t"
      using place_adds [of p m m1] by auto
    from place_each_keeps [OF this m1(2)] show ?thesis by auto
  next
    case False
    with Cons.prems have "p \<in> set ls" by simp
    from Cons.IH [OF this Cons.prems(2,3) m1(2)] show ?thesis .
  qed
qed

lemma normalize_has_path:
  "p \<in> set ls \<Longrightarrow> p \<noteq> [] \<Longrightarrow> set p \<inter> set object_natives = {} \<Longrightarrow> normalize ls = Inr t
     \<Longrightarrow> lookup (Node t) p \<noteq> None"
  unfolding normalize_def by (rule place_each_adds)

lemma normalize_prefix_internal:
  assumes "q @ r \<in> set ls" and "r \<noteq> []" and "set (q @ r) \<inter> set object_natives = {}"
    and "normalize ls = Inr t"
  shows "\<exists>c. lookup (Node t) q = Some (Node c) \<and> lookup (Node c) r \<noteq> None"
proof -
  from assms have "lookup (Node t) (q @ r) \<noteq> None"
    by (intro normalize_has_path [OF assms(1)]) auto
  then obtain u where u: "lookup (Node t) q = Some u" "lookup u r \<noteq> None"
    by (auto simp: lookup_append split: option.splits)
  from u(2) assms(2) have "u \<noteq> Leaf"
    by (cases r) auto
  with u show ?thesis by (cases u) auto
qed

lemma place_promotes_leaf:
  assumes "map_of m k = Some Leaf" and "rest \<noteq> []"
  shows "place m (k # rest) =
           (case place [] rest of
              Inl e \<Rightarrow> Inl e
            | Inr node \<Rightarrow> Inr (write_key k (Node node) m))"
  using assms by (cases rest) auto

subsection \<open>The store\<close>

lemma length_set_prop [simp]: "length (set_prop x k v h) = length h"
  by (simp add: set_prop_def)


lemma callable_set_prop [simp]: "callable (set_prop x k v h ! a) = callable (h ! a)"
  by (cases "x < length h"; cases "a = x") (simp_all add: set_prop_def list_update_beyond)

lemma closure_at_set_prop [simp]: "closure_at (set_prop x k v h) a = closure_at h a"
  by (simp add: closure_at_def)




lemma get_prop_bound: "get_prop h a k = Some v \<Longrightarrow> a < length h"
  by (simp add: get_prop_def split: if_splits)


lemma put_ok: "k \<notin> set unwritable \<Longrightarrow> put x k v h = Inr (set_prop x k v h)"
  by (auto simp: put_def unwritable_def)

lemma put_D: "put x k v h = Inr h' \<Longrightarrow> h' = set_prop x k v h"
  by (auto simp: put_def split: if_splits)

lemma put_fn_D: "put x k v h = Inr h' \<Longrightarrow> closure_at h x \<noteq> None \<Longrightarrow> k \<notin> set unwritable"
  by (auto simp: put_def unwritable_def split: if_splits)

lemma assign_Cons: "assign t ((k, v) # s) = assign (write_key k v t) s"
  by (simp add: assign_def)

lemma assign_Nil: "assign t [] = t"
  by (simp add: assign_def)

lemma assign_to_ok:
  "fst ` set src \<inter> set unwritable = {} \<Longrightarrow> x < length h
     \<Longrightarrow> assign_to x src h = Inr (h[x := (h ! x)\<lparr>props := assign (props (h ! x)) src\<rparr>])"
proof (induction src arbitrary: h)
  case Nil
  then show ?case by (simp add: assign_Nil)
next
  case (Cons a src)
  obtain k v where a: "a = (k, v)" by (cases a)
  from Cons.prems(1) a have k: "k \<notin> set unwritable" and rest: "fst ` set src \<inter> set unwritable = {}"
    by auto
  have "assign_to x (a # src) h = assign_to x src (set_prop x k v h)"
    using k by (simp add: a put_ok)
  also have "\<dots> = Inr ((set_prop x k v h)
       [x := (set_prop x k v h ! x)\<lparr>props := assign (props (set_prop x k v h ! x)) src\<rparr>])"
    using rest Cons.prems(2) by (intro Cons.IH) simp_all
  also have "\<dots> = Inr (h[x := (h ! x)\<lparr>props := assign (props (h ! x)) (a # src)\<rparr>])"
    using Cons.prems(2) by (simp add: set_prop_def a assign_Cons)
  finally show ?case .
qed

lemma assign_to_fn_D:
  "assign_to x src h = Inr h' \<Longrightarrow> closure_at h x \<noteq> None
     \<Longrightarrow> fst ` set src \<inter> set unwritable = {}"
proof (induction src arbitrary: h)
  case Nil
  then show ?case by simp
next
  case (Cons a src)
  obtain k v where a: "a = (k, v)" by (cases a)
  from Cons.prems(1) a obtain h1 where h1: "put x k v h = Inr h1" "assign_to x src h1 = Inr h'"
    by (auto split: sum.splits)
  from h1(1) Cons.prems(2) have k: "k \<notin> set unwritable" by (rule put_fn_D)
  from h1(1) have "h1 = set_prop x k v h" by (rule put_D)
  with Cons.prems(2) have "closure_at h1 x \<noteq> None" by simp
  from Cons.IH [OF h1(2) this] k a show ?case by simp
qed

lemma assign_keys: "fst ` set (assign t s) = fst ` set t \<union> fst ` set s"
proof (induction s arbitrary: t)
  case Nil
  then show ?case by (simp add: assign_Nil)
next
  case (Cons a s)
  show ?case using Cons.IH [of "write_key (fst a) (snd a) t"]
    by (cases a) (auto simp: assign_Cons keys_write_key)
qed


lemma proto_keys: "fst ` set (proto res conf) = set (verb_names conf)"
  by (simp add: verb_names_def proto_def assign_keys Let_def)

lemma loop_Leaf_kids:
  "(if v \<noteq> Leaf then loop conf (kids v) a h else Inr h) = loop conf (kids v) a h"
  by (cases v) simp_all

lemma loop_alloc:
  assumes "set (verb_names conf) \<inter> set unwritable = {}"
  shows "assign_to (length h) (proto (JString name) conf)
           (set_prop (length h) ''_route'' (Fun (NodeRoute name accum))
              (h @ [\<lparr>callable = c, props = []\<rparr>]))
         = Inr (h @ [\<lparr>callable = c, props = node_base name accum conf\<rparr>])"
proof -
  have "fst ` set (proto (JString name) conf) \<inter> set unwritable = {}"
    using assms by (simp add: proto_keys)
  then show ?thesis
    by (subst assign_to_ok) (simp_all add: set_prop_def node_base_def write_key_def)
qed

lemma route_writable: "''_route'' \<notin> set unwritable" "''out'' \<notin> set unwritable"
  by (simp_all add: unwritable_def function_read_only_def)

lemma loop_Cons:
  assumes "set (verb_names conf) \<inter> set unwritable = {}"
  shows "loop conf ((name, v) # rest) accum h =
     (case loop conf (kids v) (length h)
             (h @ [\<lparr>callable = Some (ResourceFn name v accum),
                    props = node_base name accum conf\<rparr>]) of
        Inl e \<Rightarrow> Inl e
      | Inr h4 \<Rightarrow>
          (case put accum name (Ref (length h)) h4 of
             Inl e \<Rightarrow> Inl e
           | Inr h5 \<Rightarrow> loop conf rest accum h5))"
  by (simp only: loop.simps Let_def put_ok [OF route_writable(1)] sum.case loop_alloc [OF assms]
        loop_Leaf_kids)

lemma loop_verbs:
  assumes "loop conf ((name, v) # rest) accum h = Inr h'"
  shows "set (verb_names conf) \<inter> set unwritable = {}"
proof -
  let ?h2 = "set_prop (length h) ''_route'' (Fun (NodeRoute name accum))
               (h @ [\<lparr>callable = Some (ResourceFn name v accum), props = []\<rparr>])"
  from assms obtain h3 where "assign_to (length h) (proto (JString name) conf) ?h2 = Inr h3"
    by (simp only: loop.simps Let_def put_ok [OF route_writable(1)] sum.case split: sum.splits)
  moreover have "closure_at ?h2 (length h) \<noteq> None"
    by (simp add: closure_at_def)
  ultimately have "fst ` set (proto (JString name) conf) \<inter> set unwritable = {}"
    by (rule assign_to_fn_D)
  then show ?thesis by (simp add: proto_keys)
qed

lemma loop_Cons_D:
  assumes "loop conf ((name, v) # rest) accum h = Inr h'"
  shows "\<exists>h4. loop conf (kids v) (length h)
               (h @ [\<lparr>callable = Some (ResourceFn name v accum),
                      props = node_base name accum conf\<rparr>]) = Inr h4
          \<and> put accum name (Ref (length h)) h4 = Inr (set_prop accum name (Ref (length h)) h4)
          \<and> loop conf rest accum (set_prop accum name (Ref (length h)) h4) = Inr h'"
proof -
  note v = loop_verbs [OF assms]
  from assms obtain h4 h5 where h4: "loop conf (kids v) (length h)
               (h @ [\<lparr>callable = Some (ResourceFn name v accum),
                      props = node_base name accum conf\<rparr>]) = Inr h4"
    and h5: "put accum name (Ref (length h)) h4 = Inr h5"
    and h': "loop conf rest accum h5 = Inr h'"
    unfolding loop_Cons [OF v] by (auto split: sum.splits)
  from h5 have "h5 = set_prop accum name (Ref (length h)) h4" by (rule put_D)
  with h4 h5 h' show ?thesis by blast
qed

lemma tree_size_kids:
  "size_list (size_prod (\<lambda>k. 0) size) (kids v)
     < size_list (size_prod (\<lambda>k. 0) size) ((name, v) # rest)"
  by (cases v) simp_all

lemma loop_ok_induct [consumes 1, case_names Nil Cons]:
  assumes ok: "loop conf ks accum h = Inr h'"
    and nil: "\<And>conf accum h. P conf [] accum h h"
    and cons: "\<And>conf name v rest accum h h4 h'.
           set (verb_names conf) \<inter> set unwritable = {}
           \<Longrightarrow> loop conf (kids v) (length h)
                 (h @ [\<lparr>callable = Some (ResourceFn name v accum),
                        props = node_base name accum conf\<rparr>]) = Inr h4
           \<Longrightarrow> P conf (kids v) (length h)
                 (h @ [\<lparr>callable = Some (ResourceFn name v accum),
                        props = node_base name accum conf\<rparr>]) h4
           \<Longrightarrow> put accum name (Ref (length h)) h4 = Inr (set_prop accum name (Ref (length h)) h4)
           \<Longrightarrow> loop conf rest accum (set_prop accum name (Ref (length h)) h4) = Inr h'
           \<Longrightarrow> P conf rest accum (set_prop accum name (Ref (length h)) h4) h'
           \<Longrightarrow> P conf ((name, v) # rest) accum h h'"
  shows "P conf ks accum h h'"
  using ok
proof (induction "size_list (size_prod (\<lambda>k. 0) size) ks" arbitrary: ks accum h h'
         rule: less_induct)
  case less
  show ?case
  proof (cases ks)
    case Nil
    with less.prems have "h' = h" by simp
    with Nil show ?thesis by (simp add: nil)
  next
    case (Cons a rest)
    obtain name v where a: "a = (name, v)" by (cases a)
    note ok = less.prems [unfolded Cons a]
    from loop_Cons_D [OF ok] obtain h4 where h4: "loop conf (kids v) (length h)
               (h @ [\<lparr>callable = Some (ResourceFn name v accum),
                      props = node_base name accum conf\<rparr>]) = Inr h4"
      and pt: "put accum name (Ref (length h)) h4 = Inr (set_prop accum name (Ref (length h)) h4)"
      and h': "loop conf rest accum (set_prop accum name (Ref (length h)) h4) = Inr h'"
      by blast
    have s1: "size_list (size_prod (\<lambda>k. 0) size) (kids v)
                < size_list (size_prod (\<lambda>k. 0) size) ks"
      unfolding Cons a by (rule tree_size_kids)
    have s2: "size_list (size_prod (\<lambda>k. 0) size) rest
                < size_list (size_prod (\<lambda>k. 0) size) ks"
      unfolding Cons a by simp
    have "P conf ((name, v) # rest) accum h h'"
      using loop_verbs [OF ok] h4 less.hyps [OF s1 h4] pt h' less.hyps [OF s2 h']
      by (rule cons)
    then show ?thesis by (simp add: Cons a)
  qed
qed

subsection \<open>The compiled hierarchy\<close>











lemma count_nodes_kids:
  "count_nodes v = Suc (sum_list (map (\<lambda>kt. count_nodes (snd kt)) (kids v)))"
  by (cases v) simp_all

lemma loop_count:
  "loop conf ks accum h = Inr h' \<Longrightarrow> accum < length h \<Longrightarrow>
     length h' = length h + sum_list (map (\<lambda>kt. count_nodes (snd kt)) ks)"
proof (induction rule: loop_ok_induct)
  case (Nil conf accum h)
  then show ?case by simp
next
  case (Cons conf name v rest accum h h4 h')
  let ?h3 = "h @ [\<lparr>callable = Some (ResourceFn name v accum), props = node_base name accum conf\<rparr>]"
  let ?h5 = "set_prop accum name (Ref (length h)) h4"
  have l4: "length h4 = length ?h3 + sum_list (map (\<lambda>kt. count_nodes (snd kt)) (kids v))"
    using Cons.IH(1) by simp
  then have "accum < length ?h5" using Cons.prems by simp
  from Cons.IH(2) [OF this]
  have "length h' = length ?h5 + sum_list (map (\<lambda>kt. count_nodes (snd kt)) rest)" .
  with l4 show ?case
    by (simp add: count_nodes_kids [of v])
qed

lemma build_count: "build conf t = Inr h \<Longrightarrow> length h = count_nodes (Node t)"
  unfolding build_def by (drule loop_count) simp_all

subsection \<open>Names\<close>


















subsection \<open>Route chains\<close>






lemma routes_bound: "routes conf h x d r \<Longrightarrow> x < length h"
  by (erule routes.cases) (auto dest: get_prop_bound)


subsection \<open>Stores that evolve\<close>









subsection \<open>One invocation\<close>








lemma reachable_trans:
  "reachable conf h1 h2 \<Longrightarrow> reachable conf h0 h1 \<Longrightarrow> reachable conf h0 h2"
proof (induction rule: reachable.induct)
  case reachable_start
  then show ?case .
next
  case (reachable_step h cur s a h2)
  from reachable_step.IH [OF reachable_step.prems] reachable_step.hyps(2)
  show ?case by (rule reachable.reachable_step)
qed


subsection \<open>Navigation\<close>



lemma attached_child:
  "attached conf ex h x base ks \<Longrightarrow> (k, t) \<in> set ks \<Longrightarrow>
     \<exists>f. get_prop h x k = Some (Ref f) \<and> x < f \<and> f < length h
        \<and> callable (h ! f) = Some (ResourceFn k t x)
        \<and> attached conf ex h f (node_base k x conf) (kids t)"
  by (erule attached.cases) blast



lemma nav_props:
  "attached conf ex h cur base ks \<Longrightarrow> lookup (Node ks) p = Some t \<Longrightarrow> p \<noteq> []
   \<Longrightarrow> \<exists>a parent. nav conf h cur (map Prop p) = Inr (a, h)
         \<and> callable (h ! a) = Some (ResourceFn (last p) t parent)
         \<and> attached conf ex h a (node_base (last p) parent conf) (kids t)"
proof (induction p arbitrary: cur base ks)
  case Nil
  then show ?case by simp
next
  case (Cons k p)
  from Cons.prems(2) obtain c where c: "map_of ks k = Some c" "lookup c p = Some t"
    by (auto split: option.splits)
  then have mem: "(k, c) \<in> set ks" by (auto dest: map_of_SomeD)
  from attached_child [OF Cons.prems(1) mem] obtain f where f:
    "get_prop h cur k = Some (Ref f)" "callable (h ! f) = Some (ResourceFn k c cur)"
    "attached conf ex h f (node_base k cur conf) (kids c)" by blast
  show ?case
  proof (cases "p = []")
    case True
    with c(2) have "t = c" by simp
    with True f show ?thesis by auto
  next
    case False
    with c(2) have "lookup (Node (kids c)) p = Some t" by (cases p) auto
    from Cons.IH [OF f(3) this False] obtain a parent where
      "nav conf h f (map Prop p) = Inr (a, h)"
      "callable (h ! a) = Some (ResourceFn (last p) t parent)"
      "attached conf ex h a (node_base (last p) parent conf) (kids t)" by blast
    with f(1) False show ?thesis by auto
  qed
qed

subsection \<open>Built clients\<close>



lemma o_root_make_opts [simp]: "o_root (make_opts cfg) = cfg_root cfg"
  by (simp add: make_opts_def)






lemma pair_collapse: "p = (fst p, snd p)"
  by simp




end
